theory Spec2Isabelle
  imports Complex_Main "HOL-Library.AList" "HOL-Library.Sublist"
begin

section \<open>Python values, errors and dictionaries\<close>

text \<open>
  The store of \<^verbatim>\<open>app.py\<close> holds strings (bot code, status words, JSON text), floats
  (clock readings) and integers (the creation counter); \<^verbatim>\<open>None\<close> is the default of
  \<^verbatim>\<open>get\<close>. A clock reading (\<^verbatim>\<open>time.time()\<close>) is a real number handed to every
  operation that reads the clock.
\<close>

datatype pyval = PNone | PStr string | PInt int | PFloat real

datatype py_error = ValueError | TypeError | IndexError | RuntimeError

text \<open>
  A Python \<^verbatim>\<open>dict\<close> keeps its keys in insertion order: assigning to a present key keeps
  its position, assigning to an absent key appends it. That is \<open>AList.update\<close>;
  \<^verbatim>\<open>pop(key, None)\<close> is \<open>AList.delete\<close>, and \<^verbatim>\<open>key in d\<close> is a lookup by \<open>map_of\<close>.
\<close>

type_synonym ('k, 'v) dict = "('k \<times> 'v) list"

definition contains_key :: "('k, 'v) dict \<Rightarrow> 'k \<Rightarrow> bool" where
  "contains_key d k = (map_of d k \<noteq> None)"

subsection \<open>The builtin \<^verbatim>\<open>int\<close> on stored values\<close>

definition is_digit :: "char \<Rightarrow> bool" where
  "is_digit c = (c \<in> set ''0123456789'')"

definition digit_val :: "char \<Rightarrow> nat" where
  "digit_val c = of_char c - 48"

definition is_space :: "char \<Rightarrow> bool" where
  "is_space c = (c \<in> set [CHR '' '', CHR 0x09, CHR 0x0A, CHR 0x0B, CHR 0x0C, CHR 0x0D,
                          CHR 0x1C, CHR 0x1D, CHR 0x1E, CHR 0x1F])"

fun digits_acc :: "nat \<Rightarrow> string \<Rightarrow> nat option" where
  "digits_acc n [] = Some n"
| "digits_acc n [c] = (if is_digit c then Some (10 * n + digit_val c) else None)"
| "digits_acc n (c # d # cs) =
     (if is_digit c then digits_acc (10 * n + digit_val c) (d # cs)
      else if c = CHR ''_'' \<and> is_digit d then digits_acc n (d # cs)
      else None)"

definition parse_digits :: "string \<Rightarrow> nat option" where
  "parse_digits s =
     (case s of [] \<Rightarrow> None
      | c # cs \<Rightarrow> if is_digit c then digits_acc (digit_val c) cs else None)"

definition strip :: "string \<Rightarrow> string" where
  "strip s = rev (dropWhile is_space (rev (dropWhile is_space s)))"

definition int_of_str :: "string \<Rightarrow> int option" where
  "int_of_str s =
     (case strip s of
        [] \<Rightarrow> None
      | c # r \<Rightarrow>
          if c = CHR ''-'' then map_option (\<lambda>n. - int n) (parse_digits r)
          else if c = CHR ''+'' then map_option int (parse_digits r)
          else map_option int (parse_digits (c # r)))"

text \<open>
  \<^verbatim>\<open>int(v)\<close>: the identity on an integer, truncation towards zero on a float, a decimal
  literal (optional sign, single underscores between digits, surrounding white space) on
  a string and \<^verbatim>\<open>ValueError\<close> on any other string, \<^verbatim>\<open>TypeError\<close> on \<^verbatim>\<open>None\<close>.
\<close>

definition py_int :: "pyval \<Rightarrow> py_error + int" where
  "py_int v =
     (case v of
        PInt n \<Rightarrow> Inr n
      | PFloat x \<Rightarrow> Inr (if 0 \<le> x then \<lfloor>x\<rfloor> else \<lceil>x\<rceil>)
      | PStr s \<Rightarrow> (case int_of_str s of None \<Rightarrow> Inl ValueError | Some n \<Rightarrow> Inr n)
      | PNone \<Rightarrow> Inl TypeError)"

section \<open>\<^verbatim>\<open>MemoryStorage\<close>: the expiring key-value store\<close>

record storage_stats =
  bots_created :: int
  bots_active :: int
  memory_usage :: real
  last_cleanup :: real

record memory_storage =
  data :: "(string, pyval) dict"
  expiry :: "(string, real) dict"
  stats :: storage_stats

text \<open>\<^verbatim>\<open>MemoryStorage.__init__\<close>, at clock reading \<open>now\<close>.\<close>

definition init_storage :: "real \<Rightarrow> memory_storage" where
  "init_storage now =
     \<lparr>data = [], expiry = [],
      stats = \<lparr>bots_created = 0, bots_active = 0, memory_usage = 0, last_cleanup = now\<rparr>\<rparr>"

text \<open>
  \<^verbatim>\<open>set(key, value, ttl=None)\<close>. The test \<^verbatim>\<open>if ttl:\<close> is false for \<^verbatim>\<open>None\<close> and for \<open>0\<close>;
  the expiry dictionary is written only when it is true. The method returns \<^verbatim>\<open>True\<close>
  always; the model returns the updated store.
\<close>

definition set_storage :: "real \<Rightarrow> string \<Rightarrow> pyval \<Rightarrow> int option \<Rightarrow> memory_storage \<Rightarrow> memory_storage" where
  "set_storage now key v ttl s =
     (let s1 = s\<lparr>data := AList.update key v (data s)\<rparr>
      in case ttl of
           None \<Rightarrow> s1
         | Some t \<Rightarrow>
             if t \<noteq> 0 then s1\<lparr>expiry := AList.update key (now + real_of_int t) (expiry s1)\<rparr>
             else s1)"

text \<open>\<^verbatim>\<open>delete(key)\<close>: pops the key from both dictionaries.\<close>

definition delete :: "string \<Rightarrow> memory_storage \<Rightarrow> memory_storage" where
  "delete key s = s\<lparr>data := AList.delete key (data s), expiry := AList.delete key (expiry s)\<rparr>"

text \<open>\<^verbatim>\<open>key in self.expiry and time.time() > self.expiry[key]\<close>\<close>

definition expired :: "real \<Rightarrow> string \<Rightarrow> memory_storage \<Rightarrow> bool" where
  "expired now key s = (case map_of (expiry s) key of None \<Rightarrow> False | Some e \<Rightarrow> now > e)"

text \<open>\<^verbatim>\<open>get(key, default=None)\<close>: the value returned and the store after the call.\<close>

definition get :: "real \<Rightarrow> string \<Rightarrow> pyval \<Rightarrow> memory_storage \<Rightarrow> pyval \<times> memory_storage" where
  "get now key dflt s =
     (if expired now key s then (dflt, delete key s)
      else (case map_of (data s) key of None \<Rightarrow> dflt | Some v \<Rightarrow> v, s))"

text \<open>
  \<^verbatim>\<open>keys(pattern="*")\<close>: every key for the pattern \<^verbatim>\<open>"*"\<close>, otherwise the keys that have
  the pattern as a substring (\<^verbatim>\<open>pattern in k\<close>), in dictionary order.
\<close>

definition keys :: "memory_storage \<Rightarrow> string \<Rightarrow> string list" where
  "keys s pattern =
     (if pattern = ''*'' then map fst (data s)
      else filter (\<lambda>k. sublist pattern k) (map fst (data s)))"

text \<open>\<^verbatim>\<open>exists(key)\<close>: \<^verbatim>\<open>key in self.data\<close>.\<close>

definition exists :: "memory_storage \<Rightarrow> string \<Rightarrow> bool" where
  "exists s key = contains_key (data s) key"

text \<open>
  \<^verbatim>\<open>incr(key)\<close>. \<^verbatim>\<open>int(...)\<close> may raise; the store as \<^verbatim>\<open>get\<close> left it is returned with
  the error.
\<close>

definition incr :: "real \<Rightarrow> string \<Rightarrow> memory_storage \<Rightarrow> (py_error + int) \<times> memory_storage" where
  "incr now key s =
     (case get now key (PInt 0) s of
        (v, s1) \<Rightarrow>
          (case py_int v of
             Inl e \<Rightarrow> (Inl e, s1)
           | Inr val \<Rightarrow> (Inr (val + 1), set_storage now key (PInt (val + 1)) None s1)))"

text \<open>\<^verbatim>\<open>cleanup_expired()\<close>: the number of keys removed and the store after the sweep.\<close>

definition cleanup_expired :: "real \<Rightarrow> memory_storage \<Rightarrow> nat \<times> memory_storage" where
  "cleanup_expired now s =
     (let expired_keys = map fst (filter (\<lambda>(k, e). now > e) (expiry s));
          s1 = fold delete expired_keys s
      in (length expired_keys, s1\<lparr>stats := (stats s1)\<lparr>last_cleanup := now\<rparr>\<rparr>))"

section \<open>\<^verbatim>\<open>BotManager\<close>: the lifecycle supervisor\<close>

text \<open>
  The state of the process: the module-level \<^verbatim>\<open>storage\<close>, the two dictionaries of
  \<^verbatim>\<open>bot_manager\<close> (\<^verbatim>\<open>bots\<close>: token to running application, \<^verbatim>\<open>bot_tasks\<close>: token to
  task), and the tasks the event loops hold: \<open>scheduled\<close> lists the token of every
  \<^verbatim>\<open>run_bot\<close> task made by \<^verbatim>\<open>loop.create_task\<close>, in order of creation (a task is named by
  its index), and \<open>cancelled\<close> the tasks on which \<^verbatim>\<open>cancel()\<close> was called. Applications
  are named by numbers.
\<close>

record system =
  storage :: memory_storage
  bots :: "(string, nat) dict"
  bot_tasks :: "(string, nat) dict"
  scheduled :: "string list"
  cancelled :: "nat list"

definition init_system :: "real \<Rightarrow> system" where
  "init_system now =
     \<lparr>storage = init_storage now, bots = [], bot_tasks = [], scheduled = [], cancelled = []\<rparr>"

text \<open>The key \<^verbatim>\<open>f"bot:{token}:{field}"\<close>.\<close>

definition bot_key :: "string \<Rightarrow> string \<Rightarrow> string" where
  "bot_key token field = ''bot:'' @ token @ '':'' @ field"

text \<open>The tasks made for a token on which \<^verbatim>\<open>cancel()\<close> has not been called.\<close>

definition live_tasks :: "string \<Rightarrow> system \<Rightarrow> nat list" where
  "live_tasks token sys =
     filter (\<lambda>i. scheduled sys ! i = token \<and> i \<notin> set (cancelled sys))
       [0 ..< length (scheduled sys)]"

text \<open>
  \<^verbatim>\<open>stop_bot(token)\<close>. \<open>teardown_ok\<close> tells whether \<^verbatim>\<open>asyncio.run(bot_instance.stop())\<close>
  and \<^verbatim>\<open>asyncio.run(bot_instance.shutdown())\<close> return without raising. When one of them
  raises, control passes to the bare \<^verbatim>\<open>except\<close> before anything was removed. Both paths
  write the status and return \<^verbatim>\<open>True\<close>.
\<close>

definition stop_bot :: "real \<Rightarrow> bool \<Rightarrow> string \<Rightarrow> system \<Rightarrow> bool \<times> system" where
  "stop_bot now teardown_ok token sys =
     (if contains_key (bots sys) token \<and> \<not> teardown_ok then
        (True, sys\<lparr>storage :=
                 set_storage now (bot_key token ''status'') (PStr ''stopped'') None (storage sys)\<rparr>)
      else
        (let sys1 =
               (if contains_key (bots sys) token then
                  (let sys2 = sys\<lparr>bots := AList.delete token (bots sys)\<rparr>
                   in case map_of (bot_tasks sys2) token of
                        None \<Rightarrow> sys2
                      | Some t \<Rightarrow>
                          sys2\<lparr>cancelled := cancelled sys2 @ [t],
                               bot_tasks := AList.delete token (bot_tasks sys2)\<rparr>)
                else sys)
         in (True, sys1\<lparr>storage :=
                     set_storage now (bot_key token ''status'') (PStr ''stopped'') None
                       (storage sys1)\<rparr>)))"

text \<open>
  What creating the event loop, the task and the thread does in \<^verbatim>\<open>start_bot\<close>:
  all three succeed, \<^verbatim>\<open>asyncio.new_event_loop()\<close> raises (no task exists yet), or
  \<^verbatim>\<open>thread.start()\<close> raises (the task exists, on a loop that never runs, and
  \<^verbatim>\<open>bot_tasks\<close> was not written).
\<close>

datatype launch = Launched | NewLoopRaises | ThreadStartRaises

text \<open>The \<^verbatim>\<open>except Exception\<close> branch of \<^verbatim>\<open>start_bot\<close>.\<close>

definition start_failed :: "real \<Rightarrow> string \<Rightarrow> system \<Rightarrow> bool \<times> system" where
  "start_failed now token sys =
     (False, sys\<lparr>storage :=
               set_storage now (bot_key token ''status'') (PStr ''error'') None (storage sys)\<rparr>)"

text \<open>
  \<^verbatim>\<open>start_bot(token, code)\<close>: the synchronous part, up to \<^verbatim>\<open>return\<close>. The body of the task
  it schedules is \<open>run_bot\<close> below; it runs later, on the new thread.
\<close>

definition start_bot :: "real \<Rightarrow> bool \<Rightarrow> launch \<Rightarrow> string \<Rightarrow> string \<Rightarrow> system \<Rightarrow> bool \<times> system" where
  "start_bot now teardown_ok l token code sys =
     (let sys1 = (if contains_key (bots sys) token then snd (stop_bot now teardown_ok token sys)
                  else sys);
          st1 = set_storage now (bot_key token ''code'') (PStr code) None (storage sys1);
          st2 = set_storage now (bot_key token ''status'') (PStr ''active'') None st1;
          st3 = set_storage now (bot_key token ''last_active'') (PFloat now) None st2;
          st4 = set_storage now (bot_key token ''created_at'') (PFloat now) None st3
      in case incr now ''stats:bots_created'' st4 of
           (Inl e, st5) \<Rightarrow> start_failed now token (sys1\<lparr>storage := st5\<rparr>)
         | (Inr n, st5) \<Rightarrow>
             (let sys2 = sys1\<lparr>storage := st5\<rparr>
              in case l of
                   NewLoopRaises \<Rightarrow> start_failed now token sys2
                 | ThreadStartRaises \<Rightarrow>
                     start_failed now token (sys2\<lparr>scheduled := scheduled sys2 @ [token]\<rparr>)
                 | Launched \<Rightarrow>
                     (True, sys2\<lparr>scheduled := scheduled sys2 @ [token],
                                 bot_tasks :=
                                   AList.update token (length (scheduled sys2)) (bot_tasks sys2)\<rparr>)))"

text \<open>
  The body of the task, \<^verbatim>\<open>run_bot\<close>, up to its waiting loop. \<open>inst\<close> is what
  \<^verbatim>\<open>create_bot_instance(token, code)\<close> returned: an application, or \<^verbatim>\<open>None\<close> when building,
  compiling the code or connecting raised (it catches every exception itself).
\<close>

definition run_bot :: "real \<Rightarrow> nat option \<Rightarrow> string \<Rightarrow> system \<Rightarrow> system" where
  "run_bot now inst token sys =
     (case inst of
        Some b \<Rightarrow> sys\<lparr>bots := AList.update token b (bots sys)\<rparr>
      | None \<Rightarrow>
          sys\<lparr>storage :=
                set_storage now (bot_key token ''status'') (PStr ''error'') None (storage sys)\<rparr>)"

text \<open>\<^verbatim>\<open>delete_bot(token)\<close>\<close>

definition delete_bot :: "real \<Rightarrow> bool \<Rightarrow> string \<Rightarrow> system \<Rightarrow> bool \<times> system" where
  "delete_bot now teardown_ok token sys =
     (let sys1 = snd (stop_bot now teardown_ok token sys);
          ks = keys (storage sys1) (''bot:'' @ token @ '':*'');
          st1 = fold delete ks (storage sys1);
          st2 = delete (''webhook:'' @ token) st1
      in (True, sys1\<lparr>storage := st2\<rparr>))"

text \<open>\<^verbatim>\<open>get_bot_info(token)\<close>: the dictionary returned and the system after the five reads.\<close>

record bot_info =
  status :: pyval
  created_at :: pyval
  last_active :: pyval
  memory_used :: pyval
  is_running :: bool

definition get_bot_info :: "real \<Rightarrow> string \<Rightarrow> system \<Rightarrow> bot_info \<times> system" where
  "get_bot_info now token sys =
     (case get now (bot_key token ''status'') (PStr ''not_found'') (storage sys) of (v1, st1) \<Rightarrow>
      case get now (bot_key token ''created_at'') PNone st1 of (v2, st2) \<Rightarrow>
      case get now (bot_key token ''last_active'') PNone st2 of (v3, st3) \<Rightarrow>
      case get now (bot_key token ''memory'') (PInt 0) st3 of (v4, st4) \<Rightarrow>
        (\<lparr>status = v1, created_at = v2, last_active = v3, memory_used = v4,
          is_running = contains_key (bots sys) token\<rparr>,
         sys\<lparr>storage := st4\<rparr>))"

text \<open>\<^verbatim>\<open>str.split(sep)\<close> for a one-character separator.\<close>

fun split :: "char \<Rightarrow> string \<Rightarrow> string list" where
  "split sep [] = [[]]"
| "split sep (c # cs) =
     (if c = sep then [] # split sep cs
      else (case split sep cs of [] \<Rightarrow> [[c]] | w # ws \<Rightarrow> (c # w) # ws))"

text \<open>
  \<^verbatim>\<open>get_all_bots()\<close>. The loop body for one key: \<^verbatim>\<open>key.split(":")[1]\<close> raises
  \<^verbatim>\<open>IndexError\<close> on a key without a colon; the token shown is \<^verbatim>\<open>token[:10] + "..."\<close>.
\<close>

record bot_summary =
  token :: string
  bot_status :: pyval
  bot_created_at :: pyval

definition summary_of :: "real \<Rightarrow> string \<Rightarrow> memory_storage \<Rightarrow> (py_error + bot_summary) \<times> memory_storage" where
  "summary_of now key st =
     (case split CHR '':'' key of
        _ # tok # _ \<Rightarrow>
          (case get now key PNone st of (v1, st1) \<Rightarrow>
           case get now (bot_key tok ''created_at'') PNone st1 of (v2, st2) \<Rightarrow>
             (Inr \<lparr>token = take 10 tok @ ''...'', bot_status = v1, bot_created_at = v2\<rparr>, st2))
      | _ \<Rightarrow> (Inl IndexError, st))"

fun summaries :: "real \<Rightarrow> string list \<Rightarrow> bot_summary list \<Rightarrow> memory_storage \<Rightarrow>
    (py_error + bot_summary list) \<times> memory_storage" where
  "summaries now [] acc st = (Inr acc, st)"
| "summaries now (key # ks) acc st =
     (case summary_of now key st of
        (Inl e, st1) \<Rightarrow> (Inl e, st1)
      | (Inr b, st1) \<Rightarrow> summaries now ks (acc @ [b]) st1)"

definition get_all_bots :: "real \<Rightarrow> system \<Rightarrow> (py_error + bot_summary list) \<times> system" where
  "get_all_bots now sys =
     (case summaries now (keys (storage sys) ''bot:*:status'') [] (storage sys) of
        (r, st) \<Rightarrow> (r, sys\<lparr>storage := st\<rparr>))"

text \<open>
  \<^verbatim>\<open>get_stats()\<close>: the \<^verbatim>\<open>"stats"\<close> object of the response (\<^verbatim>\<open>last_cleanup\<close> is left as
  the clock reading it formats).
\<close>

record stats_view =
  stats_bots_created :: int
  stats_bots_active :: nat
  stats_memory_usage_mb :: real
  stats_storage_items :: nat
  stats_uptime_seconds :: real
  stats_last_cleanup :: real

definition get_stats :: "real \<Rightarrow> system \<Rightarrow> stats_view" where
  "get_stats now sys =
     \<lparr>stats_bots_created = bots_created (stats (storage sys)),
      stats_bots_active = length (bots sys),
      stats_memory_usage_mb = memory_usage (stats (storage sys)),
      stats_storage_items = length (data (storage sys)),
      stats_uptime_seconds = now - last_cleanup (stats (storage sys)),
      stats_last_cleanup = last_cleanup (stats (storage sys))\<rparr>"

section \<open>Example states\<close>

text \<open>A store in which the key \<^verbatim>\<open>k\<close> was set at time 0 with a time-to-live of 5.\<close>

definition ex_store :: memory_storage where
  "ex_store = set_storage 0 ''k'' (PStr ''v'') (Some 5) (init_storage 0)"

text \<open>
  A fresh process in which \<^verbatim>\<open>start_bot("123:abc", "pass")\<close> has returned, before its task
  has run (\<open>ex_started\<close>) and after the task has connected and registered application 0
  (\<open>ex_running\<close>).
\<close>

definition ex_started :: system where
  "ex_started = snd (start_bot 0 True Launched ''123:abc'' ''pass'' (init_system 0))"

definition ex_running :: system where
  "ex_running = run_bot 1 (Some 0) ''123:abc'' ex_started"

text \<open>A fresh process in which a bot with the token \<^verbatim>\<open>*:status\<close> was started.\<close>

definition ex_star :: system where
  "ex_star = snd (start_bot 0 True Launched ''*:status'' ''pass'' (init_system 0))"

section \<open>Basic facts about the store\<close>

lemmas store_defs = set_storage_def init_storage_def delete_def get_def expired_def
  keys_def exists_def contains_key_def incr_def py_int_def

lemmas system_defs = init_system_def bot_key_def stop_bot_def start_bot_def start_failed_def
  run_bot_def delete_bot_def get_bot_info_def live_tasks_def get_stats_def

lemma update_update_same: "AList.update k v (AList.update k v d) = AList.update k v d"
  by (induction d) auto

lemma map_of_delete_same: "map_of (AList.delete k d) k = None"
  by (simp add: AList.delete_conv')

lemma set_storage_None:
  "set_storage now key v None s = s\<lparr>data := AList.update key v (data s)\<rparr>"
  by (simp add: set_storage_def)

lemma incr_data_other:
  "k \<noteq> key \<Longrightarrow> map_of (data (snd (incr now key s))) k = map_of (data s) k"
  by (simp add: incr_def get_def delete_def set_storage_None AList.update_conv'
      AList.delete_conv' split: sum.splits)

lemma ex_store_eq:
  "ex_store =
     \<lparr>data = [(''k'', PStr ''v'')], expiry = [(''k'', 5)],
      stats = \<lparr>bots_created = 0, bots_active = 0, memory_usage = 0, last_cleanup = 0\<rparr>\<rparr>"
  by (simp add: ex_store_def set_storage_def init_storage_def)

lemma start_fresh:
  "start_bot 0 True Launched ''123:abc'' ''pass'' (init_system 0) =
     (True,
      \<lparr>storage =
         \<lparr>data = [(''bot:123:abc:code'', PStr ''pass''), (''bot:123:abc:status'', PStr ''active''),
                  (''bot:123:abc:last_active'', PFloat 0), (''bot:123:abc:created_at'', PFloat 0),
                  (''stats:bots_created'', PInt 1)],
          expiry = [],
          stats = \<lparr>bots_created = 0, bots_active = 0, memory_usage = 0, last_cleanup = 0\<rparr>\<rparr>,
       bots = [], bot_tasks = [(''123:abc'', 0)], scheduled = [''123:abc''], cancelled = []\<rparr>)"
  by (simp add: store_defs system_defs)

lemma ex_started_eq:
  "ex_started =
     \<lparr>storage =
        \<lparr>data = [(''bot:123:abc:code'', PStr ''pass''), (''bot:123:abc:status'', PStr ''active''),
                 (''bot:123:abc:last_active'', PFloat 0), (''bot:123:abc:created_at'', PFloat 0),
                 (''stats:bots_created'', PInt 1)],
         expiry = [],
         stats = \<lparr>bots_created = 0, bots_active = 0, memory_usage = 0, last_cleanup = 0\<rparr>\<rparr>,
      bots = [], bot_tasks = [(''123:abc'', 0)], scheduled = [''123:abc''], cancelled = []\<rparr>"
  by (simp add: ex_started_def start_fresh)

lemma ex_running_eq: "ex_running = ex_started\<lparr>bots := [(''123:abc'', 0)]\<rparr>"
  by (simp add: ex_running_def run_bot_def ex_started_eq)

section \<open>The store: expiry on read\<close>

text \<open>
  C10: \<^verbatim>\<open>get(key, default)\<close> on a key that has no expiry instant, or whose expiry instant
  has not passed (the clock reads at most that instant), returns the store exactly as it
  was: data, expiry and statistics are unchanged. The store changes only when the key
  has expired.
\<close>

theorem get_frame:
  assumes "map_of (expiry s) key = None \<or> (\<exists>e. map_of (expiry s) key = Some e \<and> now \<le> e)"
  shows "snd (get now key dflt s) = s"
  using assms by (auto simp: get_def expired_def)

text \<open>
  The key \<^verbatim>\<open>k\<close> of \<open>ex_store\<close> expires at 5; a read at clock reading 5, the last instant
  at which it has not expired, changes nothing.
\<close>

theorem get_frame_witness:
  "map_of (expiry ex_store) ''k'' = Some 5 \<and> snd (get 5 ''k'' PNone ex_store) = ex_store"
  using get_frame [of ex_store "''k''" 5 PNone]
  by (simp add: ex_store_eq)

text \<open>
  C1 (the code departs from the claim): at clock reading 10 the key \<^verbatim>\<open>k\<close> of \<open>ex_store\<close>
  has expired (its instant is 5) and has not been swept. \<^verbatim>\<open>get\<close> removes it and returns
  the default, as the claim says; \<^verbatim>\<open>exists\<close> still answers true and \<^verbatim>\<open>keys\<close> still
  lists it, for the pattern \<^verbatim>\<open>*\<close> and for a substring pattern: neither looks at the
  expiry dictionary.
\<close>

theorem expired_key_still_visible:
  "expired 10 ''k'' ex_store
   \<and> get 10 ''k'' PNone ex_store = (PNone, init_storage 0)
   \<and> exists ex_store ''k''
   \<and> keys ex_store ''*'' = [''k'']
   \<and> keys ex_store ''k'' = [''k'']"
  by (simp add: ex_store_eq store_defs)

text \<open>
  C9, as the code has it: \<^verbatim>\<open>set(key, value, ttl)\<close> with \<^verbatim>\<open>ttl = 0\<close> is the same call as
  \<^verbatim>\<open>set(key, value)\<close> without a time-to-live: it writes the value and leaves the expiry
  dictionary as it was. When the key had no expiry instant before the call, it has none
  after it: at every later clock reading \<^verbatim>\<open>get\<close> returns the value and changes nothing,
  \<^verbatim>\<open>exists\<close> is true and \<^verbatim>\<open>keys("*")\<close> lists the key.
\<close>

theorem set_ttl_zero_as_absent:
  "set_storage now key v (Some 0) s = set_storage now key v None s
   \<and> expiry (set_storage now key v (Some 0) s) = expiry s
   \<and> (map_of (expiry s) key = None \<longrightarrow>
        get now' key dflt (set_storage now key v (Some 0) s)
          = (v, set_storage now key v (Some 0) s)
        \<and> exists (set_storage now key v (Some 0) s) key
        \<and> key \<in> set (keys (set_storage now key v (Some 0) s) ''*''))"
  by (auto simp: store_defs AList.update_conv' image_iff
      dom_map_of_conv_image_fst [symmetric])

theorem set_ttl_zero_as_absent_witness:
  "map_of (expiry (init_storage 0)) ''k'' = None
   \<and> get 1000 ''k'' PNone (set_storage 1 ''k'' (PStr ''v'') (Some 0) (init_storage 0))
       = (PStr ''v'', set_storage 1 ''k'' (PStr ''v'') (Some 0) (init_storage 0))
   \<and> exists (set_storage 1 ''k'' (PStr ''v'') (Some 0) (init_storage 0)) ''k''
   \<and> ''k'' \<in> set (keys (set_storage 1 ''k'' (PStr ''v'') (Some 0) (init_storage 0)) ''*'')"
proof -
  have no_instant: "map_of (expiry (init_storage 0)) ''k'' = None"
    by (simp add: init_storage_def)
  with set_ttl_zero_as_absent [of 1 "''k''" "PStr ''v''" "init_storage 0" 1000 PNone]
  show ?thesis by blast
qed

text \<open>
  C9 as stated fails on a key that already has an expiry instant: \<^verbatim>\<open>k\<close> of \<open>ex_store\<close>
  expires at 5; \<^verbatim>\<open>set("k", "w", ttl=0)\<close> at time 1 keeps that instant, and at time 6
  \<^verbatim>\<open>get\<close> returns the default and the key is gone.
\<close>

theorem set_ttl_zero_counterexample:
  "map_of (expiry (set_storage 1 ''k'' (PStr ''w'') (Some 0) ex_store)) ''k'' = Some 5
   \<and> fst (get 6 ''k'' PNone (set_storage 1 ''k'' (PStr ''w'') (Some 0) ex_store)) = PNone
   \<and> \<not> exists (snd (get 6 ''k'' PNone (set_storage 1 ''k'' (PStr ''w'') (Some 0) ex_store))) ''k''"
  by (simp add: ex_store_eq store_defs)

section \<open>The supervisor: stopping\<close>

lemma stop_bot_fst: "fst (stop_bot now td tok sys) = True"
  by (simp add: stop_bot_def Let_def)

lemma stop_bot_status:
  "map_of (data (storage (snd (stop_bot now td tok sys)))) (bot_key tok ''status'')
     = Some (PStr ''stopped'')"
  by (simp add: stop_bot_def Let_def set_storage_None AList.update_conv' split: option.splits)

lemma stop_bot_scheduled: "scheduled (snd (stop_bot now td tok sys)) = scheduled sys"
  by (simp add: stop_bot_def Let_def split: option.splits)

lemma stop_bot_idem:
  "stop_bot now' td tok (snd (stop_bot now td tok sys)) = stop_bot now td tok sys"
proof (cases "contains_key (bots sys) tok")
  case False
  then show ?thesis
    by (simp add: stop_bot_def Let_def set_storage_None update_update_same)
next
  case True
  show ?thesis
  proof (cases td)
    case False
    with True show ?thesis
      by (simp add: stop_bot_def Let_def set_storage_None update_update_same)
  next
    case td: True
    have gone: "\<not> contains_key (AList.delete tok (bots sys)) tok"
      by (simp add: contains_key_def map_of_delete_same)
    from True td gone show ?thesis
      by (cases "map_of (bot_tasks sys) tok")
         (simp_all add: stop_bot_def Let_def set_storage_None update_update_same)
  qed
qed

text \<open>
  C4: for every token, every state of the process and either outcome of the teardown
  (it returns, or it raises and the bare \<^verbatim>\<open>except\<close> takes over), \<^verbatim>\<open>stop_bot\<close> returns
  \<^verbatim>\<open>True\<close> and leaves the stored status of the token at \<^verbatim>\<open>stopped\<close>, whether or not the
  token has a running application; it has no raising path. Stopping again, whatever the
  second teardown does, returns \<^verbatim>\<open>True\<close> and leaves \<^verbatim>\<open>stopped\<close> again, and with the same
  teardown outcome the second call changes nothing at all.
\<close>

theorem stop_bot_always_stopped:
  "fst (stop_bot now td tok sys) = True
   \<and> map_of (data (storage (snd (stop_bot now td tok sys)))) (bot_key tok ''status'')
       = Some (PStr ''stopped'')
   \<and> fst (stop_bot now' td' tok (snd (stop_bot now td tok sys))) = True
   \<and> map_of (data (storage (snd (stop_bot now' td' tok (snd (stop_bot now td tok sys))))))
        (bot_key tok ''status'') = Some (PStr ''stopped'')
   \<and> stop_bot now' td tok (snd (stop_bot now td tok sys)) = stop_bot now td tok sys"
  by (simp only: stop_bot_fst stop_bot_status stop_bot_idem simp_thms)

section \<open>The supervisor: starting\<close>

lemma start_failed_status:
  "fst (start_failed now tok sys) = False
   \<and> map_of (data (storage (snd (start_failed now tok sys)))) (bot_key tok ''status'')
       = Some (PStr ''error'')"
  by (simp add: start_failed_def set_storage_None AList.update_conv')

lemma start_bot_written:
  "map_of (data (set_storage now (bot_key tok ''created_at'') c None
      (set_storage now (bot_key tok ''last_active'') b None
        (set_storage now (bot_key tok ''status'') (PStr ''active'') None
          (set_storage now (bot_key tok ''code'') a None st))))) (bot_key tok ''status'')
   = Some (PStr ''active'')"
  by (simp add: set_storage_None AList.update_conv' bot_key_def)

text \<open>
  C5, as the code has it: \<^verbatim>\<open>start_bot\<close> returns failure, with the status at \<^verbatim>\<open>error\<close>,
  whenever scheduling the task fails (creating the event loop or starting its thread
  raises), and whenever it returns failure the status is \<^verbatim>\<open>error\<close>. It returns success
  only when the task was scheduled: the task is then recorded for the token and the
  status is \<^verbatim>\<open>active\<close>. A failure of the launch inside the task
  (\<^verbatim>\<open>create_bot_instance\<close> gives no application) sets the status to \<^verbatim>\<open>error\<close> later,
  without touching the task records; the value \<^verbatim>\<open>start_bot\<close> returned is not revised.
\<close>

theorem start_bot_reports_scheduling:
  assumes r: "r = start_bot now td l tok code sys"
  shows "(l \<noteq> Launched \<longrightarrow> fst r = False)
    \<and> (fst r = False \<longrightarrow>
         map_of (data (storage (snd r))) (bot_key tok ''status'') = Some (PStr ''error''))
    \<and> (fst r = True \<longrightarrow>
         l = Launched \<and> scheduled (snd r) = scheduled sys @ [tok]
         \<and> map_of (bot_tasks (snd r)) tok = Some (length (scheduled sys))
         \<and> map_of (data (storage (snd r))) (bot_key tok ''status'') = Some (PStr ''active''))
    \<and> map_of (data (storage (run_bot now' None tok (snd r)))) (bot_key tok ''status'')
         = Some (PStr ''error'')
    \<and> bot_tasks (run_bot now' None tok (snd r)) = bot_tasks (snd r)
    \<and> scheduled (run_bot now' None tok (snd r)) = scheduled (snd r)"
proof -
  define sys1 where
    "sys1 = (if contains_key (bots sys) tok then snd (stop_bot now td tok sys) else sys)"
  define st4 where
    "st4 = set_storage now (bot_key tok ''created_at'') (PFloat now) None
      (set_storage now (bot_key tok ''last_active'') (PFloat now) None
        (set_storage now (bot_key tok ''status'') (PStr ''active'') None
          (set_storage now (bot_key tok ''code'') (PStr code) None (storage sys1))))"
  obtain res st5 where inc: "incr now ''stats:bots_created'' st4 = (res, st5)"
    by (cases "incr now ''stats:bots_created'' st4")
  have sched: "scheduled sys1 = scheduled sys"
    by (simp add: sys1_def stop_bot_scheduled)
  have "bot_key tok ''status'' \<noteq> ''stats:bots_created''"
    by (simp add: bot_key_def)
  from incr_data_other [OF this, of now st4] inc
  have act: "map_of (data st5) (bot_key tok ''status'') = Some (PStr ''active'')"
    by (simp add: st4_def start_bot_written)
  have unfold: "r = (case res of
       Inl e \<Rightarrow> start_failed now tok (sys1\<lparr>storage := st5\<rparr>)
     | Inr n \<Rightarrow> (case l of
           NewLoopRaises \<Rightarrow> start_failed now tok (sys1\<lparr>storage := st5\<rparr>)
         | ThreadStartRaises \<Rightarrow>
             start_failed now tok (sys1\<lparr>storage := st5, scheduled := scheduled sys1 @ [tok]\<rparr>)
         | Launched \<Rightarrow>
             (True, sys1\<lparr>storage := st5, scheduled := scheduled sys1 @ [tok],
                     bot_tasks := AList.update tok (length (scheduled sys1)) (bot_tasks sys1)\<rparr>)))"
    using inc
    by (simp add: r start_bot_def Let_def sys1_def [symmetric] st4_def [symmetric]
        split: sum.splits launch.splits)
  have main: "(l \<noteq> Launched \<longrightarrow> fst r = False)
    \<and> (fst r = False \<longrightarrow>
         map_of (data (storage (snd r))) (bot_key tok ''status'') = Some (PStr ''error''))
    \<and> (fst r = True \<longrightarrow>
         l = Launched \<and> scheduled (snd r) = scheduled sys @ [tok]
         \<and> map_of (bot_tasks (snd r)) tok = Some (length (scheduled sys))
         \<and> map_of (data (storage (snd r))) (bot_key tok ''status'') = Some (PStr ''active''))"
    by (cases res; cases l)
       (simp_all add: unfold start_failed_status sched act AList.update_conv')
  have "map_of (data (storage (run_bot now' None tok (snd r)))) (bot_key tok ''status'')
         = Some (PStr ''error'')
    \<and> bot_tasks (run_bot now' None tok (snd r)) = bot_tasks (snd r)
    \<and> scheduled (run_bot now' None tok (snd r)) = scheduled (snd r)"
    by (simp add: run_bot_def set_storage_None AList.update_conv')
  with main show ?thesis by simp
qed

text \<open>
  On a fresh process: when the event loop cannot be created the call returns \<^verbatim>\<open>False\<close>
  and the status is \<^verbatim>\<open>error\<close>; when the task is scheduled it returns \<^verbatim>\<open>True\<close>, task 0 is
  recorded for the token and the status is \<^verbatim>\<open>active\<close>.
\<close>

theorem start_bot_reports_scheduling_witness:
  "NewLoopRaises \<noteq> Launched
   \<and> fst (start_bot 0 True NewLoopRaises ''123:abc'' ''pass'' (init_system 0)) = False
   \<and> map_of (data (storage (snd (start_bot 0 True NewLoopRaises ''123:abc'' ''pass''
         (init_system 0))))) (bot_key ''123:abc'' ''status'') = Some (PStr ''error'')
   \<and> fst (start_bot 0 True Launched ''123:abc'' ''pass'' (init_system 0)) = True
   \<and> scheduled (snd (start_bot 0 True Launched ''123:abc'' ''pass'' (init_system 0)))
       = [''123:abc'']
   \<and> map_of (bot_tasks (snd (start_bot 0 True Launched ''123:abc'' ''pass'' (init_system 0))))
       ''123:abc'' = Some 0
   \<and> map_of (data (storage (snd (start_bot 0 True Launched ''123:abc'' ''pass''
         (init_system 0))))) (bot_key ''123:abc'' ''status'') = Some (PStr ''active'')"
proof -
  have ok: "fst (start_bot 0 True Launched ''123:abc'' ''pass'' (init_system 0)) = True"
    by (simp add: start_fresh)
  have empty: "scheduled (init_system 0) = []"
    by (simp add: init_system_def)
  from start_bot_reports_scheduling
         [of _ 0 True NewLoopRaises "''123:abc''" "''pass''" "init_system 0" 1, OF refl]
  have failing:
    "fst (start_bot 0 True NewLoopRaises ''123:abc'' ''pass'' (init_system 0)) = False
     \<and> map_of (data (storage (snd (start_bot 0 True NewLoopRaises ''123:abc'' ''pass''
           (init_system 0))))) (bot_key ''123:abc'' ''status'') = Some (PStr ''error'')"
    by simp
  from start_bot_reports_scheduling
         [of _ 0 True Launched "''123:abc''" "''pass''" "init_system 0" 1, OF refl] ok empty
  have launched:
    "scheduled (snd (start_bot 0 True Launched ''123:abc'' ''pass'' (init_system 0)))
       = [''123:abc'']
     \<and> map_of (bot_tasks (snd (start_bot 0 True Launched ''123:abc'' ''pass''
           (init_system 0)))) ''123:abc'' = Some 0
     \<and> map_of (data (storage (snd (start_bot 0 True Launched ''123:abc'' ''pass''
           (init_system 0))))) (bot_key ''123:abc'' ''status'') = Some (PStr ''active'')"
    by simp
  from failing launched ok show ?thesis by simp
qed

text \<open>
  C5 as stated fails when the launch fails inside the task: on a fresh process
  \<^verbatim>\<open>start_bot\<close> schedules the task and returns \<^verbatim>\<open>True\<close>; the task then finds that
  \<^verbatim>\<open>create_bot_instance\<close> gave no application and sets the status to \<^verbatim>\<open>error\<close>. The launch
  failed and the caller was told success.
\<close>

theorem start_bot_launch_failure_counterexample:
  "fst (start_bot 0 True Launched ''123:abc'' ''pass'' (init_system 0)) = True
   \<and> map_of (data (storage (run_bot 1 None ''123:abc''
         (snd (start_bot 0 True Launched ''123:abc'' ''pass'' (init_system 0))))))
       (bot_key ''123:abc'' ''status'') = Some (PStr ''error'')"
  by (simp add: start_fresh run_bot_def set_storage_None bot_key_def)

text \<open>
  C3 (the code departs from the claim): \<^verbatim>\<open>start_bot\<close> stops a running instance only when
  the token is in \<^verbatim>\<open>bots\<close>, which the task fills in after it has connected. Two calls in
  sequence, the second before the first task has registered its application, leave
  tasks 0 and 1 both scheduled and neither cancelled, and \<^verbatim>\<open>bot_tasks\<close> remembers only
  task 1. The same holds when the first bot is running and its teardown raises:
  \<^verbatim>\<open>stop_bot\<close> swallows the error before removing anything, and the second task is
  scheduled beside the first, whose application stays registered.
\<close>

theorem second_start_leaks_first_task:
  "live_tasks ''123:abc'' ex_started = [0]
   \<and> live_tasks ''123:abc'' (snd (start_bot 1 True Launched ''123:abc'' ''pass'' ex_started))
       = [0, 1]
   \<and> bot_tasks (snd (start_bot 1 True Launched ''123:abc'' ''pass'' ex_started))
       = [(''123:abc'', 1)]
   \<and> live_tasks ''123:abc'' (snd (start_bot 2 False Launched ''123:abc'' ''pass'' ex_running))
       = [0, 1]
   \<and> bots (snd (start_bot 2 False Launched ''123:abc'' ''pass'' ex_running))
       = [(''123:abc'', 0)]"
  by (simp add: ex_running_eq ex_started_eq store_defs system_defs upt_rec)

text \<open>
  C7 (the code departs from the claim): after one \<^verbatim>\<open>start_bot\<close> on a fresh process the
  creation counter, the store key \<^verbatim>\<open>stats:bots_created\<close>, is 1, and \<^verbatim>\<open>get_stats\<close> reports
  0 bots created: it reads the field \<^verbatim>\<open>bots_created\<close> of the statistics dictionary, which
  \<^verbatim>\<open>start_bot\<close> never writes.
\<close>

theorem get_stats_ignores_counter:
  "map_of (data (storage ex_started)) ''stats:bots_created'' = Some (PInt 1)
   \<and> stats_bots_created (get_stats 1 ex_started) = 0"
  by (simp add: ex_started_eq get_stats_def)

section \<open>The supervisor: deleting\<close>

text \<open>
  C2 (the code departs from the claim): a bot is started, its task registers the
  application, and \<^verbatim>\<open>delete_bot\<close> is called. The application and the task are removed,
  but every store key of the token remains: \<^verbatim>\<open>keys\<close> is asked for the keys that have
  the text \<^verbatim>\<open>bot:123:abc:*\<close>, asterisk included, as a substring, and there are none. The
  status query afterwards reports \<^verbatim>\<open>stopped\<close>, not \<^verbatim>\<open>not_found\<close>.
\<close>

theorem delete_bot_leaves_keys:
  "bots (snd (delete_bot 2 True ''123:abc'' ex_running)) = []
   \<and> keys (storage (snd (delete_bot 2 True ''123:abc'' ex_running))) ''*'' =
       [''bot:123:abc:code'', ''bot:123:abc:status'', ''bot:123:abc:last_active'',
        ''bot:123:abc:created_at'', ''stats:bots_created'']
   \<and> status (fst (get_bot_info 3 ''123:abc'' (snd (delete_bot 2 True ''123:abc'' ex_running))))
       = PStr ''stopped''"
  by (simp add: ex_running_eq ex_started_eq store_defs system_defs sublist_code)

section \<open>The supervisor: listing\<close>

lemma split_hd: "\<exists>ws. split sep s = takeWhile (\<lambda>c. c \<noteq> sep) s # ws"
  by (induction s) auto

lemma split_sep_free_prefix:
  "sep \<notin> set xs \<Longrightarrow> split sep (xs @ sep # ys) = xs # split sep ys"
  by (induction xs) auto

lemma takeWhile_stop: "\<not> P y \<Longrightarrow> takeWhile P (xs @ y # ys) = takeWhile P xs"
  by (induction xs) auto

lemma takeWhile_sep_free:
  "sep \<notin> set xs \<Longrightarrow> takeWhile (\<lambda>c. c \<noteq> sep) (xs @ ys) = xs @ takeWhile (\<lambda>c. c \<noteq> sep) ys"
  by (induction xs) auto

lemma split_bot_key:
  "\<exists>ws. split CHR '':'' (bot_key T f) = ''bot'' # takeWhile (\<lambda>c. c \<noteq> CHR '':'') T # ws"
proof -
  have "split CHR '':'' (bot_key T f) = ''bot'' # split CHR '':'' (T @ CHR '':'' # f)"
    using split_sep_free_prefix [of "CHR '':''" "''bot''" "T @ CHR '':'' # f"]
    by (simp add: bot_key_def)
  moreover obtain ws where
    "split CHR '':'' (T @ CHR '':'' # f) = takeWhile (\<lambda>c. c \<noteq> CHR '':'') (T @ CHR '':'' # f) # ws"
    using split_hd by blast
  ultimately show ?thesis
    by (simp add: takeWhile_stop)
qed

lemma length_split: "length (split sep s) = Suc (length (filter (\<lambda>c. c = sep) s))"
  by (induction s) (auto split: list.splits)

lemma sublist_status_pattern_two_colons:
  assumes "sublist ''bot:*:status'' k"
  shows "\<exists>a tok ws. split CHR '':'' k = a # tok # ws"
proof -
  from assms obtain ps ss where "k = ps @ ''bot:*:status'' @ ss"
    by (auto simp: sublist_def)
  then have "length (split CHR '':'' k) \<ge> 2"
    by (simp add: length_split)
  then show ?thesis
    by (cases "split CHR '':'' k"; cases "tl (split CHR '':'' k)") auto
qed

lemma masked_neq_token:
  assumes sub: "sublist ''bot:*:status'' (bot_key T f)" and field: "CHR '':'' \<notin> set f"
  shows "take 10 (takeWhile (\<lambda>c. c \<noteq> CHR '':'') T) @ ''...'' \<noteq> T"
proof
  let ?P = "\<lambda>c. c \<noteq> CHR '':''"
  assume eq: "take 10 (takeWhile ?P T) @ ''...'' = T"
  have "set (take 10 (takeWhile ?P T) @ ''...'') \<subseteq> {c. ?P c}"
    using set_takeWhileD [of _ ?P T] by (auto dest: in_set_takeD)
  with eq have free: "CHR '':'' \<notin> set T" by auto
  then have "filter (\<lambda>c. c = CHR '':'') T = []"
    by (auto simp: filter_empty_conv)
  moreover from field have "filter (\<lambda>c. c = CHR '':'') f = []"
    by (auto simp: filter_empty_conv)
  ultimately have cnt: "length (filter (\<lambda>c. c = CHR '':'') (bot_key T f)) = 2"
    by (simp add: bot_key_def)
  from sub obtain ps ss where k: "bot_key T f = ps @ ''bot:*:status'' @ ss"
    by (auto simp: sublist_def)
  from cnt have "length (filter (\<lambda>c. c = CHR '':'') (ps @ ''bot:*:status'' @ ss)) = 2"
    by (simp only: k)
  then have ps_free: "CHR '':'' \<notin> set ps"
    by (auto simp: filter_empty_conv)
  have "takeWhile ?P (bot_key T f) = ''bot''"
    by (simp add: bot_key_def)
  moreover have "takeWhile ?P (ps @ ''bot:*:status'' @ ss) = ps @ ''bot''"
    using ps_free by (simp add: takeWhile_sep_free)
  ultimately have "ps = []" by (simp add: k)
  with k have "T @ CHR '':'' # f = ''*:status'' @ ss"
    by (simp add: bot_key_def)
  then have "takeWhile ?P (T @ CHR '':'' # f) = takeWhile ?P (''*:status'' @ ss)"
    by simp
  with free have "T = ''*''"
    by (simp add: takeWhile_sep_free)
  with eq show False by simp
qed


lemma summary_of_ok:
  assumes "split CHR '':'' k = a # tok # ws"
  shows "\<exists>b st1. summary_of now k st = (Inr b, st1) \<and> token b = take 10 tok @ ''...''"
  using assms by (simp add: summary_of_def split: prod.splits)

lemma summaries_shape:
  assumes "\<forall>k\<in>set ks. \<exists>a tok ws. split CHR '':'' k = a # tok # ws"
  shows "\<exists>bs st'. summaries now ks acc st = (Inr (acc @ bs), st') \<and> length bs = length ks
           \<and> (\<forall>i<length ks. token (bs ! i) = take 10 (split CHR '':'' (ks ! i) ! 1) @ ''...'')"
  using assms
proof (induction ks arbitrary: acc st)
  case Nil
  then show ?case by simp
next
  case (Cons k ks)
  from Cons.prems obtain a tok ws where sp: "split CHR '':'' k = a # tok # ws"
    by auto
  from summary_of_ok [OF sp] obtain b st1 where
    b: "summary_of now k st = (Inr b, st1)" "token b = take 10 tok @ ''...''"
    by blast
  from Cons.prems have "\<forall>k\<in>set ks. \<exists>a tok ws. split CHR '':'' k = a # tok # ws"
    by simp
  from Cons.IH [OF this, of "acc @ [b]" st1] obtain bs st' where
    bs: "summaries now ks (acc @ [b]) st1 = (Inr ((acc @ [b]) @ bs), st')"
        "length bs = length ks"
        "\<forall>i<length ks. token (bs ! i) = take 10 (split CHR '':'' (ks ! i) ! 1) @ ''...''"
    by blast
  have "summaries now (k # ks) acc st = (Inr (acc @ (b # bs)), st')"
    using b(1) bs(1) by simp
  moreover have "length (b # bs) = length (k # ks)"
    using bs(2) by simp
  moreover have "\<forall>i<length (k # ks).
      token ((b # bs) ! i) = take 10 (split CHR '':'' ((k # ks) ! i) ! 1) @ ''...''"
  proof (intro allI impI)
    fix i assume "i < length (k # ks)"
    then show "token ((b # bs) ! i) = take 10 (split CHR '':'' ((k # ks) ! i) ! 1) @ ''...''"
      using b(2) sp bs(3) by (cases i) simp_all
  qed
  ultimately show ?case by blast
qed

lemma ex_star_eq:
  "ex_star =
     \<lparr>storage =
        \<lparr>data = [(''bot:*:status:code'', PStr ''pass''), (''bot:*:status:status'', PStr ''active''),
                 (''bot:*:status:last_active'', PFloat 0), (''bot:*:status:created_at'', PFloat 0),
                 (''stats:bots_created'', PInt 1)],
         expiry = [],
         stats = \<lparr>bots_created = 0, bots_active = 0, memory_usage = 0, last_cleanup = 0\<rparr>\<rparr>,
      bots = [], bot_tasks = [(''*:status'', 0)], scheduled = [''*:status''], cancelled = []\<rparr>"
  by (simp add: ex_star_def store_defs system_defs)

lemma ex_star_keys:
  "keys (storage ex_star) ''bot:*:status'' =
     [''bot:*:status:code'', ''bot:*:status:status'', ''bot:*:status:last_active'',
      ''bot:*:status:created_at'']"
  by (simp add: ex_star_eq keys_def sublist_code)

text \<open>
  C8: \<^verbatim>\<open>get_all_bots\<close> never raises, and returns one summary for each key that
  \<^verbatim>\<open>keys("bot:*:status")\<close> gives. A summary built from a key of the bot with token \<open>T\<close>
  (the key \<^verbatim>\<open>bot:T:field\<close>, the field without a colon, as every field of the program
  is) shows the first ten characters of the part of \<open>T\<close> before its first colon,
  followed by three dots, and what it shows is never \<open>T\<close> itself, whatever the length
  of \<open>T\<close>.
\<close>

theorem get_all_bots_masks_token:
  "\<exists>bs sys'. get_all_bots now sys = (Inr bs, sys')
     \<and> length bs = length (keys (storage sys) ''bot:*:status'')
     \<and> (\<forall>i<length bs. \<forall>T f.
           keys (storage sys) ''bot:*:status'' ! i = bot_key T f \<and> CHR '':'' \<notin> set f \<longrightarrow>
           token (bs ! i) = take 10 (takeWhile (\<lambda>c. c \<noteq> CHR '':'') T) @ ''...''
           \<and> token (bs ! i) \<noteq> T)"
proof -
  let ?ks = "keys (storage sys) ''bot:*:status''"
  have sub: "\<forall>k\<in>set ?ks. sublist ''bot:*:status'' k"
    by (simp add: keys_def)
  then have "\<forall>k\<in>set ?ks. \<exists>a tok ws. split CHR '':'' k = a # tok # ws"
    using sublist_status_pattern_two_colons by blast
  from summaries_shape [OF this, of now "[]" "storage sys"] obtain bs st' where
    bs: "summaries now ?ks [] (storage sys) = (Inr bs, st')" "length bs = length ?ks"
        "\<forall>i<length ?ks. token (bs ! i) = take 10 (split CHR '':'' (?ks ! i) ! 1) @ ''...''"
    by auto
  have per_key: "token (bs ! i) = take 10 (takeWhile (\<lambda>c. c \<noteq> CHR '':'') T) @ ''...''
        \<and> token (bs ! i) \<noteq> T"
    if i: "i < length bs" and k: "?ks ! i = bot_key T f" and f: "CHR '':'' \<notin> set f" for i T f
  proof -
    from split_bot_key [of T f] obtain ws where
      "split CHR '':'' (bot_key T f) = ''bot'' # takeWhile (\<lambda>c. c \<noteq> CHR '':'') T # ws"
      by blast
    with bs(2,3) i k have tk: "token (bs ! i) = take 10 (takeWhile (\<lambda>c. c \<noteq> CHR '':'') T) @ ''...''"
      by simp
    from i bs(2) have "?ks ! i \<in> set ?ks" by simp
    with sub k have "sublist ''bot:*:status'' (bot_key T f)" by auto
    from masked_neq_token [OF this f] tk show ?thesis by simp
  qed
  have run: "get_all_bots now sys = (Inr bs, sys\<lparr>storage := st'\<rparr>)"
    using bs(1) by (simp add: get_all_bots_def)
  from per_key have "\<forall>i<length bs. \<forall>T f. ?ks ! i = bot_key T f \<and> CHR '':'' \<notin> set f \<longrightarrow>
      token (bs ! i) = take 10 (takeWhile (\<lambda>c. c \<noteq> CHR '':'') T) @ ''...''
      \<and> token (bs ! i) \<noteq> T"
    by blast
  with run bs(2) show ?thesis by blast
qed

text \<open>
  The bot with token \<^verbatim>\<open>*:status\<close> is listed (its keys contain the text
  \<^verbatim>\<open>bot:*:status\<close>); the summary built from its status key shows \<^verbatim>\<open>*...\<close>.
\<close>

theorem get_all_bots_masks_token_witness:
  "keys (storage ex_star) ''bot:*:status'' ! 1 = bot_key ''*:status'' ''status''
   \<and> (\<exists>bs sys'. get_all_bots 1 ex_star = (Inr bs, sys') \<and> 1 < length bs
        \<and> token (bs ! 1) = ''*...'' \<and> token (bs ! 1) \<noteq> ''*:status'')"
proof -
  have k: "keys (storage ex_star) ''bot:*:status'' ! 1 = bot_key ''*:status'' ''status''"
    by (simp add: ex_star_keys bot_key_def)
  from get_all_bots_masks_token [of 1 ex_star] obtain bs sys' where
    bs: "get_all_bots 1 ex_star = (Inr bs, sys')"
        "length bs = length (keys (storage ex_star) ''bot:*:status'')"
        "\<forall>i<length bs. \<forall>T f.
           keys (storage ex_star) ''bot:*:status'' ! i = bot_key T f \<and> CHR '':'' \<notin> set f \<longrightarrow>
           token (bs ! i) = take 10 (takeWhile (\<lambda>c. c \<noteq> CHR '':'') T) @ ''...''
           \<and> token (bs ! i) \<noteq> T"
    by blast
  from bs(2) have len: "1 < length bs" by (simp add: ex_star_keys)
  have colon_free: "CHR '':'' \<notin> set ''status''" by simp
  have "token (bs ! 1) = take 10 (takeWhile (\<lambda>c. c \<noteq> CHR '':'') ''*:status'') @ ''...''
      \<and> token (bs ! 1) \<noteq> ''*:status''"
    using bs(3) k len colon_free by blast
  then have "token (bs ! 1) = ''*...'' \<and> token (bs ! 1) \<noteq> ''*:status''"
    by simp
  with k bs(1) len show ?thesis by blast
qed

end
